theory Spec2Isabelle
  imports Main "HOL-Library.Sublist"
begin

section \<open>The raw-block capsule codec of the yaml\_metadata node\<close>

text \<open>
  The development embeds \<^verbatim>\<open>yaml_metadata.ts\<close> (the \<^verbatim>\<open>blockCapsuleFilter\<close> of the
  \<^verbatim>\<open>yaml_metadata\<close> node and its pandoc writer). Strings are lists of characters; an
  index counts characters.
\<close>

subsection \<open>Global regular expressions: exec, replace and match\<close>

text \<open>
  A pattern is given by its matching function: \<open>rx s i\<close> is the leftmost match of the
  pattern in \<open>s\<close> that starts at index \<open>i\<close> or later, as the index of its first
  character, the index after its last one, and its capture groups.
\<close>

type_synonym 'g rmatch = "nat \<times> nat \<times> 'g"

type_synonym 'g regex = "string \<Rightarrow> nat \<Rightarrow> 'g rmatch option"

text \<open>\<^verbatim>\<open>S.substring(b, e)\<close> for \<open>b \<le> e \<le> length S\<close>.\<close>

definition substring :: "string \<Rightarrow> nat \<Rightarrow> nat \<Rightarrow> string" where
  "substring s b e = take (e - b) (drop b s)"

text \<open>
  \<^verbatim>\<open>RegExpBuiltinExec\<close> of a regular expression with the \<^verbatim>\<open>g\<close> flag: it reads the
  object's \<^verbatim>\<open>lastIndex\<close> and returns the match together with the new \<^verbatim>\<open>lastIndex\<close>
  (the end of the match, or 0 when there is none). A match lies at or after
  \<^verbatim>\<open>lastIndex\<close> and inside the string; an answer of the matching function that does
  not is no match.
\<close>

definition regExpExec :: "'g regex \<Rightarrow> string \<Rightarrow> nat \<Rightarrow> 'g rmatch option \<times> nat" where
  "regExpExec rx s lastIndex =
     (if length s < lastIndex then (None, 0)
      else case rx s lastIndex of
             None \<Rightarrow> (None, 0)
           | Some (b, e, g) \<Rightarrow>
               if lastIndex \<le> b \<and> b \<le> e \<and> e \<le> length s then (Some (b, e, g), e)
               else (None, 0))"

text \<open>
  The loop that \<^verbatim>\<open>RegExp.prototype[Symbol.replace]\<close> and
  \<^verbatim>\<open>RegExp.prototype[Symbol.match]\<close> share for a global pattern: exec until there is
  no match, stepping \<^verbatim>\<open>lastIndex\<close> over an empty match. It returns the matches in
  order and the \<^verbatim>\<open>lastIndex\<close> left behind.
\<close>

function execAll :: "'g regex \<Rightarrow> string \<Rightarrow> nat \<Rightarrow> 'g rmatch list \<times> nat" where
  "execAll rx s lastIndex =
     (case regExpExec rx s lastIndex of
        (None, li) \<Rightarrow> ([], li)
      | (Some (b, e, g), li) \<Rightarrow>
          (let r = execAll rx s (if e = b then li + 1 else li)
           in ((b, e, g) # fst r, snd r)))"
  by pat_completeness auto
termination
  by (relation "measure (\<lambda>(rx, s, lastIndex). Suc (length s) - lastIndex)")
     (auto simp: regExpExec_def split: if_splits option.splits)

declare execAll.simps [simp del]

text \<open>
  The result string of replace with a replacer function: the text between the
  matches is copied, each match is replaced by what the function returns for it
  (the matched text and the capture groups are its arguments).
\<close>

fun substitute :: "string \<Rightarrow> (string \<Rightarrow> 'g \<Rightarrow> string) \<Rightarrow> nat \<Rightarrow> 'g rmatch list \<Rightarrow> string" where
  "substitute s f pos [] = drop pos s"
| "substitute s f pos ((b, e, g) # ms) =
     (if pos \<le> b
      then substring s pos b @ f (substring s b e) g @ substitute s f e ms
      else substitute s f pos ms)"

text \<open>
  \<^verbatim>\<open>text.replace(rx, f)\<close> for a global \<open>rx\<close>: \<^verbatim>\<open>lastIndex\<close> is set to 0 first, whatever
  it was; all matches are found, then replaced.
\<close>

definition regExpReplace ::
  "'g regex \<Rightarrow> (string \<Rightarrow> 'g \<Rightarrow> string) \<Rightarrow> string \<Rightarrow> nat \<Rightarrow> string \<times> nat" where
  "regExpReplace rx f s lastIndex =
     (let lastIndex = 0;
          r = execAll rx s lastIndex
      in (substitute s f 0 (fst r), snd r))"

text \<open>
  \<^verbatim>\<open>text.match(rx)\<close> for a global \<open>rx\<close>: \<^verbatim>\<open>lastIndex\<close> is set to 0 first; the result is
  the list of the matched texts, or null (\<open>None\<close>) when there is no match.
\<close>

definition regExpMatch :: "'g regex \<Rightarrow> string \<Rightarrow> nat \<Rightarrow> string list option \<times> nat" where
  "regExpMatch rx s lastIndex =
     (let lastIndex = 0;
          r = execAll rx s lastIndex
      in (if fst r = [] then None else Some (map (\<lambda>(b, e, g). substring s b e) (fst r)),
          snd r))"

subsection \<open>Capsules\<close>

text \<open>
  Modelled from the spec: the interface \<^verbatim>\<open>PandocBlockCapsule\<close> is not in the source
  files; the record has the fields of the spec's CapsuleRecord (id, type, source,
  enclosedText). The code reads \<^verbatim>\<open>type\<close> and \<^verbatim>\<open>source\<close>.
\<close>

record PandocBlockCapsule =
  capsule_id :: string
  type :: string
  source :: string
  enclosedText :: string

definition kYamlMetadataCapsuleType :: string where
  "kYamlMetadataCapsuleType = ''e1819605-0acd-4fae-8b99-9c1b7bd7c0f1''"

subsection \<open>blockCapsuleFilter.handleText\<close>

text \<open>
  The pattern \<^verbatim>\<open>kEncodedBlockCapsuleRegEx\<close> and the function
  \<^verbatim>\<open>parsePandocBlockCapsule\<close> are imported from \<^verbatim>\<open>api/pandoc\<close>, which is not in the
  source files: both are parameters. The pattern is global and its first capture
  group is the replacer's \<^verbatim>\<open>p1\<close>. The state passed through is the pattern's
  \<^verbatim>\<open>lastIndex\<close>.
\<close>

definition handleText ::
  "string regex \<Rightarrow> (string \<Rightarrow> PandocBlockCapsule) \<Rightarrow> string \<Rightarrow> nat \<Rightarrow> string \<times> nat" where
  "handleText kEncodedBlockCapsuleRegEx parsePandocBlockCapsule text lastIndex =
     (let lastIndex = 0
      in regExpReplace kEncodedBlockCapsuleRegEx
           (\<lambda>match p1.
              let capsuleText = p1;
                  capsule = parsePandocBlockCapsule capsuleText
              in if type capsule = kYamlMetadataCapsuleType then source capsule else match)
           text lastIndex)"

subsection \<open>blockCapsuleFilter.match\<close>

text \<open>
  The pattern
  \<^verbatim>\<open>/^([\t >]*)(---[ \t]*\n[\W\w]*?(?:\n---|\n\.\.\.))([ \t]*)$/gm\<close>
  as a matching function. With the \<^verbatim>\<open>m\<close> flag, \<^verbatim>\<open>^\<close> holds at index 0 and after a
  line terminator, \<^verbatim>\<open>$\<close> at the end of the string and before a line terminator.
  Characters are 8-bit here, so the line terminators are \<^verbatim>\<open>\n\<close> and \<^verbatim>\<open>\r\<close>.
\<close>

definition isLineTerminator :: "char \<Rightarrow> bool" where
  "isLineTerminator ch = (ch = CHR ''\<newline>'' \<or> ch = CHR 0x0D)"

text \<open>The class \<^verbatim>\<open>[\t >]\<close>.\<close>

definition isQuoteSpace :: "char \<Rightarrow> bool" where
  "isQuoteSpace ch = (ch = CHR 0x09 \<or> ch = CHR '' '' \<or> ch = CHR ''>'')"

text \<open>The class \<^verbatim>\<open>[ \t]\<close>.\<close>

definition isBlank :: "char \<Rightarrow> bool" where
  "isBlank ch = (ch = CHR '' '' \<or> ch = CHR 0x09)"

definition atLineStart :: "string \<Rightarrow> nat \<Rightarrow> bool" where
  "atLineStart s i = (i = 0 \<or> (i \<le> length s \<and> isLineTerminator (s ! (i - 1))))"

definition atLineEnd :: "string \<Rightarrow> bool" where
  "atLineEnd xs = (case xs of [] \<Rightarrow> True | ch # _ \<Rightarrow> isLineTerminator ch)"

text \<open>
  \<^verbatim>\<open>(?:\n---|\n\.\.\.)([ \t]*)$\<close> at the head of \<open>xs\<close>: the delimiter and the third
  group. The greedy \<^verbatim>\<open>[ \t]*\<close> takes the whole run of blanks: after a shorter run
  the next character is a blank, where \<^verbatim>\<open>$\<close> fails.
\<close>

definition closeAt :: "string \<Rightarrow> (string \<times> string) option" where
  "closeAt xs =
     (if prefix ''\<newline>---'' xs \<or> prefix ''\<newline>...'' xs
      then (if atLineEnd (dropWhile isBlank (drop 4 xs))
            then Some (take 4 xs, takeWhile isBlank (drop 4 xs))
            else None)
      else None)"

text \<open>
  \<^verbatim>\<open>[\W\w]*?\<close> followed by the closing part: the lazy star tries the shortest body
  first. The result is the body, the delimiter and the third group.
\<close>

fun lazyClose :: "string \<Rightarrow> (string \<times> string \<times> string) option" where
  "lazyClose [] = None"
| "lazyClose (ch # cs) =
     (case closeAt (ch # cs) of
        Some (d, p3) \<Rightarrow> Some ([], d, p3)
      | None \<Rightarrow> map_option (\<lambda>(body, d, p3). (ch # body, d, p3)) (lazyClose cs))"

text \<open>
  The pattern after \<^verbatim>\<open>^\<close>, at the head of \<open>xs\<close>: the three groups. Both greedy
  classes take their whole run, since the character that must follow is not in the
  class.
\<close>

definition yamlMatchAt :: "string \<Rightarrow> (string \<times> string \<times> string) option" where
  "yamlMatchAt xs =
     (let p1 = takeWhile isQuoteSpace xs;
          r1 = dropWhile isQuoteSpace xs
      in if prefix ''---'' r1
         then (let w = takeWhile isBlank (drop 3 r1);
                   r3 = dropWhile isBlank (drop 3 r1)
               in case r3 of
                    [] \<Rightarrow> None
                  | ch # r4 \<Rightarrow>
                      if ch = CHR ''\<newline>''
                      then (case lazyClose r4 of
                              None \<Rightarrow> None
                            | Some (body, d, p3) \<Rightarrow>
                                Some (p1, ''---'' @ w @ ''\<newline>'' @ body @ d, p3))
                      else None)
         else None)"

text \<open>The leftmost match in the suffix \<open>xs\<close> that starts at index \<open>j\<close>.\<close>

fun yamlFind :: "bool \<Rightarrow> string \<Rightarrow> nat \<Rightarrow> (string \<times> string \<times> string) rmatch option" where
  "yamlFind bol xs j =
     (case (if bol then yamlMatchAt xs else None) of
        Some (p1, p2, p3) \<Rightarrow> Some (j, j + length p1 + length p2 + length p3, (p1, p2, p3))
      | None \<Rightarrow>
          (case xs of
             [] \<Rightarrow> None
           | ch # cs \<Rightarrow> yamlFind (isLineTerminator ch) cs (Suc j)))"

declare yamlFind.simps [simp del]

definition match :: "(string \<times> string \<times> string) regex" where
  "match s i = (if i \<le> length s then yamlFind (atLineStart s i) (drop i s) i else None)"

subsection \<open>blockCapsuleFilter.enclose\<close>

definition enclose :: "string \<Rightarrow> string" where
  "enclose capsuleText = capsuleText @ ''\<newline>''"

subsection \<open>blockCapsuleFilter.handleToken\<close>

text \<open>
  Modelled from the spec: \<^verbatim>\<open>PandocToken\<close> and \<^verbatim>\<open>PandocTokenType\<close> are imported from
  \<^verbatim>\<open>api/pandoc\<close>, which is not in the source files. A token is a kind \<^verbatim>\<open>t\<close> with a
  content \<^verbatim>\<open>c\<close>; the spec names block and inline kinds such as "paragraph containing
  one text run". Each kind is a constructor that carries the content the converter
  gives that kind: a string for \<open>Str\<close>, the child tokens for a block.
\<close>

datatype PandocToken =
    Str string
  | Space
  | SoftBreak
  | RawInline string string
  | Para "PandocToken list"
  | Plain "PandocToken list"
  | BlockQuote "PandocToken list"

text \<open>
  The result is the matched text or null (\<open>None\<close>), with the \<^verbatim>\<open>lastIndex\<close> left behind.
  \<^verbatim>\<open>match[0]\<close> is the first matched text: with the \<^verbatim>\<open>g\<close> flag, \<^verbatim>\<open>text.match\<close> returns
  the matched texts, not the groups.
\<close>

fun handleToken ::
  "string regex \<Rightarrow> (string \<Rightarrow> PandocBlockCapsule) \<Rightarrow> PandocToken \<Rightarrow> nat \<Rightarrow> string option \<times> nat" where
  "handleToken kEncodedBlockCapsuleRegEx parsePandocBlockCapsule (Para [Str text]) lastIndex =
     (let lastIndex = 0;
          r = regExpMatch kEncodedBlockCapsuleRegEx text lastIndex
      in case fst r of
           Some (match0 # _) \<Rightarrow>
             (let capsuleRecord = parsePandocBlockCapsule match0
              in if type capsuleRecord = kYamlMetadataCapsuleType then (Some match0, snd r)
                 else (None, snd r))
         | _ \<Rightarrow> (None, snd r))"
| "handleToken kEncodedBlockCapsuleRegEx parsePandocBlockCapsule tok lastIndex = (None, lastIndex)"

subsection \<open>blockCapsuleFilter.writeNode\<close>

text \<open>
  Modelled from the spec: the document-tree host (\<^verbatim>\<open>ProsemirrorNode\<close>,
  \<^verbatim>\<open>ProsemirrorWriter\<close>) is not in the source files; the spec requires of it "node
  creation with a type tag, attribute map, and text content". A node is a text or
  a typed node with attributes and children. The writer is the stack of the nodes
  that are open, innermost first: \<^verbatim>\<open>openNode\<close> opens a node, \<^verbatim>\<open>writeText\<close> appends a
  text to the innermost open node, \<^verbatim>\<open>closeNode\<close> appends the innermost open node to
  the one around it. Where no node is open to write to, the writer stays as it is.
\<close>

datatype ProsemirrorNode =
    TextNode string
  | Node string "(string \<times> string) list" "ProsemirrorNode list"

fun textContent :: "ProsemirrorNode \<Rightarrow> string" where
  "textContent (TextNode s) = s"
| "textContent (Node ty attrs children) = concat (map textContent children)"

fun content :: "ProsemirrorNode \<Rightarrow> ProsemirrorNode list" where
  "content (TextNode s) = []"
| "content (Node ty attrs children) = children"

type_synonym ProsemirrorWriter = "(string \<times> (string \<times> string) list \<times> ProsemirrorNode list) list"

definition openNode :: "string \<Rightarrow> (string \<times> string) list \<Rightarrow> ProsemirrorWriter \<Rightarrow> ProsemirrorWriter" where
  "openNode ty attrs writer = (ty, attrs, []) # writer"

fun writeText :: "string \<Rightarrow> ProsemirrorWriter \<Rightarrow> ProsemirrorWriter" where
  "writeText s [] = []"
| "writeText s ((ty, attrs, children) # outer) = (ty, attrs, children @ [TextNode s]) # outer"

fun closeNode :: "ProsemirrorWriter \<Rightarrow> ProsemirrorWriter" where
  "closeNode ((ty, attrs, children) # (ty', attrs', children') # outer) =
     (ty', attrs', children' @ [Node ty attrs children]) # outer"
| "closeNode writer = writer"

text \<open>
  \<^verbatim>\<open>schema.nodes.yaml_metadata\<close> is the node type of the name \<^verbatim>\<open>yaml_metadata\<close>;
  \<^verbatim>\<open>uuidv4()\<close> is random, its value is the parameter \<open>uuid\<close>.
\<close>

definition writeNode :: "ProsemirrorWriter \<Rightarrow> PandocBlockCapsule \<Rightarrow> string \<Rightarrow> ProsemirrorWriter" where
  "writeNode writer capsule uuid =
     closeNode (writeText (source capsule)
       (openNode ''yaml_metadata'' [(''navigation_id'', uuid)] writer))"

subsection \<open>pandoc.writer\<close>

text \<open>
  Modelled from the spec: \<^verbatim>\<open>PandocOutput\<close> is not in the source files. The output is
  the list of the tokens written: \<^verbatim>\<open>writeToken\<close> appends a token of the given kind
  whose content is what its callback writes, \<^verbatim>\<open>writeRawMarkdown\<close> appends the text of
  a fragment as raw markdown ("emits its stored raw text verbatim").
\<close>

type_synonym PandocOutput = "PandocToken list"

definition writeToken ::
  "(PandocToken list \<Rightarrow> PandocToken) \<Rightarrow> (PandocOutput \<Rightarrow> PandocOutput) \<Rightarrow> PandocOutput \<Rightarrow> PandocOutput" where
  "writeToken t f output = output @ [t (f [])]"

definition writeRawMarkdown :: "ProsemirrorNode list \<Rightarrow> PandocOutput \<Rightarrow> PandocOutput" where
  "writeRawMarkdown fragment output =
     output @ [RawInline ''markdown'' (concat (map textContent fragment))]"

definition writer :: "PandocOutput \<Rightarrow> ProsemirrorNode \<Rightarrow> PandocOutput" where
  "writer output node = writeToken Para (\<lambda>output. writeRawMarkdown (content node) output) output"

subsection \<open>Placeholders, the registry and the scanner\<close>

text \<open>
  Modelled from the spec: the placeholder, its pattern and the registry are in
  \<^verbatim>\<open>api/pandoc\<close>, which is not in the source files. The spec's placeholder is "an
  opaque text token embedding type and id" that reads as one text run; here it is
  the type and the id between braces. The pattern \<^verbatim>\<open>kEncodedBlockCapsuleRegEx\<close> finds
  the placeholders; its capture group spans the whole placeholder, so that the text
  \<^verbatim>\<open>handleText\<close> looks up (\<^verbatim>\<open>p1\<close>) and the one \<^verbatim>\<open>handleToken\<close> looks up (\<^verbatim>\<open>match[0]\<close>) are
  the same key.
\<close>

definition encodedBlockCapsule :: "string \<Rightarrow> string \<Rightarrow> string" where
  "encodedBlockCapsule ty ident = ''{{'' @ ty @ '':'' @ ident @ ''}}''"

definition isCapsuleChar :: "char \<Rightarrow> bool" where
  "isCapsuleChar ch =
     (ch \<noteq> CHR ''{'' \<and> ch \<noteq> CHR ''}'' \<and> ch \<noteq> CHR '' '' \<and> ch \<noteq> CHR 0x09 \<and>
      ch \<noteq> CHR ''\<newline>'' \<and> ch \<noteq> CHR 0x0D)"

text \<open>
  The pattern is \<^verbatim>\<open>/(\{\{[^{} \t\n\r]+\}\})/g\<close>; \<open>capsuleAt xs\<close> is the length of the
  placeholder at the head of \<open>xs\<close>.
\<close>

definition capsuleAt :: "string \<Rightarrow> nat option" where
  "capsuleAt xs =
     (if prefix ''{{'' xs
      then (let key = takeWhile isCapsuleChar (drop 2 xs)
            in if key \<noteq> [] \<and> prefix ''}}'' (drop (2 + length key) xs)
               then Some (length key + 4) else None)
      else None)"

fun findCapsule :: "string \<Rightarrow> nat \<Rightarrow> string rmatch option" where
  "findCapsule [] j = None"
| "findCapsule (ch # cs) j =
     (case capsuleAt (ch # cs) of
        Some n \<Rightarrow> Some (j, j + n, take n (ch # cs))
      | None \<Rightarrow> findCapsule cs (Suc j))"

definition kEncodedBlockCapsuleRegEx :: "string regex" where
  "kEncodedBlockCapsuleRegEx s i = (if i \<le> length s then findCapsule (drop i s) i else None)"

text \<open>
  Modelled from the spec: the registry is the "mapping from Placeholder-derived key
  to CapsuleRecord"; \<^verbatim>\<open>parsePandocBlockCapsule\<close> is the lookup of a placeholder in it.
  The code reads the type of what the lookup returns, so the lookup returns a
  capsule in every case: for a key that is not in the registry it is the capsule of
  no type, which no filter resolves ("not found: leave the text unchanged, a silent
  no-op").
\<close>

type_synonym CapsuleRegistry = "(string \<times> PandocBlockCapsule) list"

definition noCapsule :: PandocBlockCapsule where
  "noCapsule = \<lparr>capsule_id = [], type = [], source = [], enclosedText = []\<rparr>"

definition parsePandocBlockCapsule :: "CapsuleRegistry \<Rightarrow> string \<Rightarrow> PandocBlockCapsule" where
  "parsePandocBlockCapsule registry text =
     (case map_of registry text of Some capsule \<Rightarrow> capsule | None \<Rightarrow> noCapsule)"

text \<open>
  Modelled from the spec: "allocate a new record id" (a "monotonic id"). The ids are
  the numbers 0, 1, ... in decimal.
\<close>

function showNat :: "nat \<Rightarrow> string" where
  "showNat n =
     (if n < 10 then [''0123456789'' ! n] else showNat (n div 10) @ [''0123456789'' ! (n mod 10)])"
  by pat_completeness auto
termination
  by (relation "measure (\<lambda>n. n)") auto

declare showNat.simps [simp del]

text \<open>
  Modelled from the spec: the scanner (spec 4.1) is not in the source files; this is
  the scan with the yaml filter. The text is scanned left to right with the filter's pattern; each match
  gives the leading context, the body and the trailing whitespace; the record gets
  a new id, the body as its source and \<open>enclose body\<close> as its enclosed text; the
  matched span is replaced by the leading context and "the placeholder plus
  \<^verbatim>\<open>\n\<close>", which is \<open>enclose\<close> of the placeholder (the source names the argument of
  \<^verbatim>\<open>enclose\<close> \<^verbatim>\<open>capsuleText\<close>, as \<^verbatim>\<open>handleText\<close> names the placeholder it has found). The
  spec names nothing else in the replacement, so the trailing whitespace is not
  written back.
\<close>

fun encodeMatches ::
  "string \<Rightarrow> nat \<Rightarrow> (string \<times> string \<times> string) rmatch list \<Rightarrow> CapsuleRegistry \<Rightarrow>
   string \<times> CapsuleRegistry" where
  "encodeMatches s pos [] registry = (drop pos s, registry)"
| "encodeMatches s pos ((b, e, (leading, body, trailing)) # ms) registry =
     (let ident = showNat (length registry);
          capsule = \<lparr>capsule_id = ident, type = kYamlMetadataCapsuleType, source = body,
                      enclosedText = enclose body\<rparr>;
          placeholder = encodedBlockCapsule kYamlMetadataCapsuleType ident;
          r = encodeMatches s e ms (registry @ [(placeholder, capsule)])
      in (substring s pos b @ leading @ enclose placeholder @ fst r, snd r))"

definition scan :: "string \<Rightarrow> string \<times> CapsuleRegistry" where
  "scan sourceText = encodeMatches sourceText 0 (fst (execAll match sourceText 0)) []"

subsection \<open>The matches of a scan as a partition of the text\<close>

text \<open>
  \<open>chain n pos ms\<close>: the matches \<open>ms\<close> lie in order, without overlap, between \<open>pos\<close> and
  \<open>n\<close>. \<open>gaps\<close> are the texts before each match, \<open>afterLast\<close> is the text after the last
  one, and \<open>interleave\<close> puts a text after each gap.
\<close>

fun chain :: "nat \<Rightarrow> nat \<Rightarrow> 'g rmatch list \<Rightarrow> bool" where
  "chain n pos [] = True"
| "chain n pos ((b, e, g) # ms) = (pos \<le> b \<and> b \<le> e \<and> e \<le> n \<and> chain n e ms)"

fun gaps :: "string \<Rightarrow> nat \<Rightarrow> 'g rmatch list \<Rightarrow> string list" where
  "gaps s pos [] = []"
| "gaps s pos ((b, e, g) # ms) = substring s pos b # gaps s e ms"

fun afterLast :: "string \<Rightarrow> nat \<Rightarrow> 'g rmatch list \<Rightarrow> string" where
  "afterLast s pos [] = drop pos s"
| "afterLast s pos ((b, e, g) # ms) = afterLast s e ms"

fun interleave :: "string list \<Rightarrow> string list \<Rightarrow> string" where
  "interleave (g # gs) (x # xs) = g @ x @ interleave gs xs"
| "interleave _ _ = []"

section \<open>Properties of the regular-expression engine\<close>

lemma chain_mono: "chain n pos ms \<Longrightarrow> pos' \<le> pos \<Longrightarrow> chain n pos' ms"
  by (cases ms) auto

lemma execAll_chain: "chain (length s) li (fst (execAll rx s li))"
proof (induction rx s li rule: execAll.induct)
  case (1 rx s li)
  show ?case
  proof (cases "regExpExec rx s li")
    case (Pair r li')
    show ?thesis
    proof (cases r)
      case None
      with Pair show ?thesis by (simp add: execAll.simps [of rx s li])
    next
      case (Some m)
      obtain b e g where m: "m = (b, e, g)" by (cases m) auto
      from Pair Some m have bounds: "li \<le> b" "b \<le> e" "e \<le> length s" "li' = e"
        by (auto simp: regExpExec_def split: if_splits option.splits)
      from "1.IH" [OF Pair [symmetric, unfolded Some m] refl refl refl]
      have "chain (length s) (if e = b then li' + 1 else li')
              (fst (execAll rx s (if e = b then li' + 1 else li')))" .
      then have "chain (length s) e (fst (execAll rx s (if e = b then li' + 1 else li')))"
        using bounds chain_mono [of "length s" "if e = b then li' + 1 else li'" _ e]
        by (simp split: if_splits)
      with Pair Some m bounds show ?thesis
        by (cases "e = b") (simp_all add: execAll.simps [of rx s li] Let_def)
    qed
  qed
qed

lemma execAll_lastIndex: "snd (execAll rx s li) = 0"
proof (induction rx s li rule: execAll.induct)
  case (1 rx s li)
  show ?case
  proof (cases "regExpExec rx s li")
    case (Pair r li')
    show ?thesis
    proof (cases r)
      case None
      with Pair show ?thesis
        by (auto simp: execAll.simps [of rx s li] regExpExec_def split: if_splits option.splits)
    next
      case (Some m)
      obtain b e g where m: "m = (b, e, g)" by (cases m) auto
      from "1.IH" [OF Pair [symmetric, unfolded Some m] refl refl refl]
      show ?thesis using Pair Some m
        by (simp add: execAll.simps [of rx s li] Let_def)
    qed
  qed
qed

lemma substring_join:
  "pos \<le> b \<Longrightarrow> b \<le> e \<Longrightarrow> e \<le> length s \<Longrightarrow>
   substring s pos b @ substring s b e @ drop e s = drop pos s"
  unfolding substring_def
  by (metis add_diff_inverse_nat append_take_drop_id drop_drop not_less add.commute)

lemma substitute_interleave:
  "chain (length s) pos ms \<Longrightarrow>
   substitute s f pos ms =
     interleave (gaps s pos ms) (map (\<lambda>(b, e, g). f (substring s b e) g) ms) @ afterLast s pos ms"
  by (induction ms arbitrary: pos) auto

lemma text_interleave:
  "chain (length s) pos ms \<Longrightarrow>
   drop pos s =
     interleave (gaps s pos ms) (map (\<lambda>(b, e, g). substring s b e) ms) @ afterLast s pos ms"
proof (induction ms arbitrary: pos)
  case Nil
  then show ?case by simp
next
  case (Cons m ms)
  obtain b e g where m: "m = (b, e, g)" by (cases m) auto
  from Cons.prems m have bounds: "pos \<le> b" "b \<le> e" "e \<le> length s" and ch: "chain (length s) e ms"
    by auto
  from Cons.IH [OF ch] substring_join [OF bounds] m show ?case by simp
qed

lemma substitute_unchanged:
  assumes "chain (length s) pos ms"
    and "\<And>b e g. (b, e, g) \<in> set ms \<Longrightarrow> f (substring s b e) g = substring s b e"
  shows "substitute s f pos ms = drop pos s"
proof -
  from assms(2) have "map (\<lambda>(b, e, g). f (substring s b e) g) ms = map (\<lambda>(b, e, g). substring s b e) ms"
    by auto
  with substitute_interleave [OF assms(1), of f] text_interleave [OF assms(1)] show ?thesis
    by simp
qed

lemma execAll_no_match: "rx s li = None \<Longrightarrow> execAll rx s li = ([], 0)"
  by (simp add: execAll.simps [of rx s li] regExpExec_def)

lemma regExpReplace_no_match:
  "rx s 0 = None \<Longrightarrow> regExpReplace rx f s li = (s, 0)"
  by (simp add: regExpReplace_def execAll_no_match)

section \<open>Properties of handleText\<close>

lemma handleText_unfold:
  "fst (handleText rx parse text li) =
     substitute text
       (\<lambda>m g. if type (parse g) = kYamlMetadataCapsuleType then source (parse g) else m)
       0 (fst (execAll rx text 0))"
  by (simp add: handleText_def regExpReplace_def Let_def)

lemma handleText_unchanged:
  assumes "\<And>b e g. (b, e, g) \<in> set (fst (execAll rx text 0)) \<Longrightarrow>
             type (parse g) \<noteq> kYamlMetadataCapsuleType"
  shows "fst (handleText rx parse text li) = text"
proof -
  let ?f = "\<lambda>m g. if type (parse g) = kYamlMetadataCapsuleType then source (parse g) else m"
  have "substitute text ?f 0 (fst (execAll rx text 0)) = drop 0 text"
  proof (rule substitute_unchanged [OF execAll_chain])
    fix b e g
    assume "(b, e, g) \<in> set (fst (execAll rx text 0))"
    from assms [OF this] show "?f (substring text b e) g = substring text b e" by simp
  qed
  then show ?thesis by (simp add: handleText_unfold)
qed

lemma lookup_miss_type:
  "map_of registry g = None \<Longrightarrow>
   type (parsePandocBlockCapsule registry g) \<noteq> kYamlMetadataCapsuleType"
  by (simp add: parsePandocBlockCapsule_def noCapsule_def kYamlMetadataCapsuleType_def)

lemma text_partition:
  "text = interleave (gaps text 0 (fst (execAll rx text 0)))
            (map (\<lambda>(b, e, g). substring text b e) (fst (execAll rx text 0)))
          @ afterLast text 0 (fst (execAll rx text 0))"
proof -
  have "chain (length text) 0 (fst (execAll rx text 0))" by (rule execAll_chain)
  from text_interleave [OF this] show ?thesis by simp
qed

lemma handleText_interleave:
  "fst (handleText rx parse text li) =
     interleave (gaps text 0 (fst (execAll rx text 0)))
       (map (\<lambda>(b, e, g). if type (parse g) = kYamlMetadataCapsuleType then source (parse g)
                          else substring text b e)
          (fst (execAll rx text 0)))
     @ afterLast text 0 (fst (execAll rx text 0))"
proof -
  let ?ms = "fst (execAll rx text 0)"
  let ?f = "\<lambda>m g. if type (parse g) = kYamlMetadataCapsuleType then source (parse g) else m"
  have ch: "chain (length text) 0 ?ms" by (rule execAll_chain)
  have "map (\<lambda>(b, e, g). ?f (substring text b e) g) ?ms =
        map (\<lambda>(b, e, g). if type (parse g) = kYamlMetadataCapsuleType then source (parse g)
                          else substring text b e) ?ms"
    by (rule map_cong) auto
  with substitute_interleave [OF ch, of ?f] show ?thesis
    by (simp add: handleText_unfold)
qed

text \<open>
  Claim C9. \<^verbatim>\<open>handleText\<close> and \<^verbatim>\<open>handleToken\<close> give the same result whatever the
  pattern's \<^verbatim>\<open>lastIndex\<close> was when they were called: two calls on equal inputs, after
  any earlier calls, return equal outputs. \<^verbatim>\<open>handleText\<close> leaves \<^verbatim>\<open>lastIndex\<close> at 0.
\<close>

theorem handleText_handleToken_ignore_lastIndex:
  "fst (handleText rx parse text li1) = fst (handleText rx parse text li2) \<and>
   snd (handleText rx parse text li1) = 0 \<and>
   fst (handleToken rx parse tok li1) = fst (handleToken rx parse tok li2)"
proof -
  have "fst (handleToken rx parse tok li1) = fst (handleToken rx parse tok li2)"
    by (cases "(rx, parse, tok, li1)" rule: handleToken.cases)
       (simp_all add: Let_def split: option.splits list.splits)
  then show ?thesis
    by (simp add: handleText_def regExpReplace_def Let_def execAll_lastIndex)
qed

text \<open>
  Claim C10. \<^verbatim>\<open>handleText\<close> changes placeholder spans only. A text in which the
  placeholder pattern has no match is returned as it is. In every text, the scan
  cuts the text into the gaps before the matches, the matched spans and the rest;
  the output has the same gaps and the same rest, with one text in the place of
  each matched span.
\<close>

theorem handleText_frame:
  "(rx text 0 = None \<longrightarrow> fst (handleText rx parse text li) = text) \<and>
   (\<exists>rs. length rs = length (fst (execAll rx text 0)) \<and>
      text = interleave (gaps text 0 (fst (execAll rx text 0)))
               (map (\<lambda>(b, e, g). substring text b e) (fst (execAll rx text 0)))
             @ afterLast text 0 (fst (execAll rx text 0)) \<and>
      fst (handleText rx parse text li) =
        interleave (gaps text 0 (fst (execAll rx text 0))) rs
        @ afterLast text 0 (fst (execAll rx text 0)))"
proof (intro conjI impI)
  assume "rx text 0 = None"
  then show "fst (handleText rx parse text li) = text"
    by (simp add: handleText_unfold execAll_no_match)
next
  let ?ms = "fst (execAll rx text 0)"
  let ?f = "\<lambda>m g. if type (parse g) = kYamlMetadataCapsuleType then source (parse g) else m"
  have ch: "chain (length text) 0 ?ms" by (rule execAll_chain)
  show "\<exists>rs. length rs = length ?ms \<and>
      text = interleave (gaps text 0 ?ms) (map (\<lambda>(b, e, g). substring text b e) ?ms)
             @ afterLast text 0 ?ms \<and>
      fst (handleText rx parse text li) = interleave (gaps text 0 ?ms) rs @ afterLast text 0 ?ms"
  proof (intro exI conjI)
    show "length (map (\<lambda>(b, e, g). ?f (substring text b e) g) ?ms) = length ?ms" by simp
    show "text = interleave (gaps text 0 ?ms) (map (\<lambda>(b, e, g). substring text b e) ?ms)
                 @ afterLast text 0 ?ms"
      using text_interleave [OF ch] by simp
    show "fst (handleText rx parse text li) =
        interleave (gaps text 0 ?ms) (map (\<lambda>(b, e, g). ?f (substring text b e) g) ?ms)
        @ afterLast text 0 ?ms"
      using substitute_interleave [OF ch, of ?f] by (simp add: handleText_unfold)
  qed
qed

theorem handleText_frame_witness:
  "kEncodedBlockCapsuleRegEx ''title: x'' 0 = None \<and>
   fst (handleText kEncodedBlockCapsuleRegEx (parsePandocBlockCapsule []) ''title: x'' 0) = ''title: x''"
proof -
  have h: "kEncodedBlockCapsuleRegEx ''title: x'' 0 = None" by code_simp
  from handleText_frame [of kEncodedBlockCapsuleRegEx "''title: x''" "parsePandocBlockCapsule []" 0] h
  show ?thesis by blast
qed

text \<open>
  Claim C3. Decoding is scoped by the type. The scan cuts the text into gaps,
  matched placeholders and the rest; in the output each placeholder whose capsule
  has the yaml type is replaced by the capsule's source, and each placeholder whose
  capsule has another type stands as it was, character for character.
\<close>

theorem handleText_type_scoped:
  "text = interleave (gaps text 0 (fst (execAll rx text 0)))
            (map (\<lambda>(b, e, g). substring text b e) (fst (execAll rx text 0)))
          @ afterLast text 0 (fst (execAll rx text 0)) \<and>
   fst (handleText rx parse text li) =
     interleave (gaps text 0 (fst (execAll rx text 0)))
       (map (\<lambda>(b, e, g). if type (parse g) = kYamlMetadataCapsuleType then source (parse g)
                          else substring text b e)
          (fst (execAll rx text 0)))
     @ afterLast text 0 (fst (execAll rx text 0))"
  by (rule conjI [OF text_partition handleText_interleave])

text \<open>
  Claim C8. A placeholder that is not in the registry (the registry was discarded,
  or the id is unknown) stands in the output as it was; when no placeholder of the
  text is in the registry, \<^verbatim>\<open>handleText\<close> returns the text as it is. The lookup returns
  a capsule in every case, so no error arises.
\<close>

theorem handleText_lookup_miss:
  "fst (handleText rx (parsePandocBlockCapsule registry) text li) =
     interleave (gaps text 0 (fst (execAll rx text 0)))
       (map (\<lambda>(b, e, g). case map_of registry g of
                            None \<Rightarrow> substring text b e
                          | Some capsule \<Rightarrow>
                              if type capsule = kYamlMetadataCapsuleType then source capsule
                              else substring text b e)
          (fst (execAll rx text 0)))
     @ afterLast text 0 (fst (execAll rx text 0)) \<and>
   ((\<forall>(b, e, g) \<in> set (fst (execAll rx text 0)). map_of registry g = None) \<longrightarrow>
    fst (handleText rx (parsePandocBlockCapsule registry) text li) = text)"
proof (intro conjI impI)
  have "(\<lambda>(b, e, g). if type (parsePandocBlockCapsule registry g) = kYamlMetadataCapsuleType
                      then source (parsePandocBlockCapsule registry g) else substring text b e) =
        (\<lambda>(b, e, g). case map_of registry g of
                        None \<Rightarrow> substring text b e
                      | Some capsule \<Rightarrow>
                          if type capsule = kYamlMetadataCapsuleType then source capsule
                          else substring text b e)"
  proof (intro ext)
    fix m :: "nat \<times> nat \<times> string"
    obtain b e g where m: "m = (b, e, g)" by (cases m) auto
    show "(case m of (b, e, g) \<Rightarrow>
             if type (parsePandocBlockCapsule registry g) = kYamlMetadataCapsuleType
             then source (parsePandocBlockCapsule registry g) else substring text b e) =
          (case m of (b, e, g) \<Rightarrow>
             (case map_of registry g of
                None \<Rightarrow> substring text b e
              | Some capsule \<Rightarrow>
                  if type capsule = kYamlMetadataCapsuleType then source capsule
                  else substring text b e))"
    proof (cases "map_of registry g")
      case None
      with lookup_miss_type [OF None] m show ?thesis by simp
    next
      case (Some capsule)
      with m show ?thesis by (simp add: parsePandocBlockCapsule_def)
    qed
  qed
  with handleText_interleave [of rx "parsePandocBlockCapsule registry" "text" li]
  show "fst (handleText rx (parsePandocBlockCapsule registry) text li) =
     interleave (gaps text 0 (fst (execAll rx text 0)))
       (map (\<lambda>(b, e, g). case map_of registry g of
                            None \<Rightarrow> substring text b e
                          | Some capsule \<Rightarrow>
                              if type capsule = kYamlMetadataCapsuleType then source capsule
                              else substring text b e)
          (fst (execAll rx text 0)))
     @ afterLast text 0 (fst (execAll rx text 0))"
    by simp
next
  assume "\<forall>(b, e, g) \<in> set (fst (execAll rx text 0)). map_of registry g = None"
  then show "fst (handleText rx (parsePandocBlockCapsule registry) text li) = text"
    by (auto intro!: handleText_unchanged dest: lookup_miss_type)
qed

theorem handleText_lookup_miss_witness:
  "fst (handleText kEncodedBlockCapsuleRegEx
         (parsePandocBlockCapsule
            [(''{{e1819605-0acd-4fae-8b99-9c1b7bd7c0f1:0}}'',
              \<lparr>capsule_id = ''0'', type = kYamlMetadataCapsuleType,
                 source = ''---\<newline>title: x\<newline>---'',
                 enclosedText = ''---\<newline>title: x\<newline>---\<newline>''\<rparr>)])
         ''a {{e1819605-0acd-4fae-8b99-9c1b7bd7c0f1:7}} b'' 0)
   = ''a {{e1819605-0acd-4fae-8b99-9c1b7bd7c0f1:7}} b''"
proof -
  have h: "\<forall>(b, e, g) \<in> set (fst (execAll kEncodedBlockCapsuleRegEx
                ''a {{e1819605-0acd-4fae-8b99-9c1b7bd7c0f1:7}} b'' 0)).
             map_of [(''{{e1819605-0acd-4fae-8b99-9c1b7bd7c0f1:0}}'',
                      \<lparr>capsule_id = ''0'', type = kYamlMetadataCapsuleType,
                         source = ''---\<newline>title: x\<newline>---'',
                         enclosedText = ''---\<newline>title: x\<newline>---\<newline>''\<rparr>)] g = None"
    by code_simp
  from conjunct2 [OF handleText_lookup_miss] h show ?thesis by (rule mp)
qed

text \<open>
  Claim C2, as amended. \<^verbatim>\<open>handleText\<close> applied to its own output returns that output
  whenever no placeholder left in the output has a capsule of the yaml type; so on
  text that is decoded the second call changes nothing.
\<close>

theorem handleText_idempotent_on_decoded:
  assumes "\<forall>(b, e, g) \<in> set (fst (execAll rx (fst (handleText rx parse x li)) 0)).
             type (parse g) \<noteq> kYamlMetadataCapsuleType"
  shows "fst (handleText rx parse (fst (handleText rx parse x li)) li') =
         fst (handleText rx parse x li)"
  using assms by (auto intro!: handleText_unchanged)

theorem handleText_idempotent_on_decoded_witness:
  "fst (handleText kEncodedBlockCapsuleRegEx
         (parsePandocBlockCapsule
            [(''{{e1819605-0acd-4fae-8b99-9c1b7bd7c0f1:0}}'',
              \<lparr>capsule_id = ''0'', type = kYamlMetadataCapsuleType,
                 source = ''---\<newline>title: x\<newline>---'',
                 enclosedText = ''---\<newline>title: x\<newline>---\<newline>''\<rparr>),
             (''{{div:1}}'',
              \<lparr>capsule_id = ''1'', type = ''div'', source = '':::'', enclosedText = '':::''\<rparr>)])
         (fst (handleText kEncodedBlockCapsuleRegEx
                (parsePandocBlockCapsule
                   [(''{{e1819605-0acd-4fae-8b99-9c1b7bd7c0f1:0}}'',
                     \<lparr>capsule_id = ''0'', type = kYamlMetadataCapsuleType,
                        source = ''---\<newline>title: x\<newline>---'',
                        enclosedText = ''---\<newline>title: x\<newline>---\<newline>''\<rparr>),
                    (''{{div:1}}'',
                     \<lparr>capsule_id = ''1'', type = ''div'', source = '':::'', enclosedText = '':::''\<rparr>)])
                ''{{e1819605-0acd-4fae-8b99-9c1b7bd7c0f1:0}} {{div:1}}'' 0)) 0)
   = ''---\<newline>title: x\<newline>--- {{div:1}}''"
proof -
  let ?reg = "[(''{{e1819605-0acd-4fae-8b99-9c1b7bd7c0f1:0}}'',
              \<lparr>capsule_id = ''0'', type = kYamlMetadataCapsuleType,
                 source = ''---\<newline>title: x\<newline>---'',
                 enclosedText = ''---\<newline>title: x\<newline>---\<newline>''\<rparr>),
             (''{{div:1}}'',
              \<lparr>capsule_id = ''1'', type = ''div'', source = '':::'', enclosedText = '':::''\<rparr>)]"
  let ?x = "''{{e1819605-0acd-4fae-8b99-9c1b7bd7c0f1:0}} {{div:1}}''"
  have out: "fst (handleText kEncodedBlockCapsuleRegEx (parsePandocBlockCapsule ?reg) ?x 0)
             = ''---\<newline>title: x\<newline>--- {{div:1}}''"
    by code_simp
  have h: "\<forall>(b, e, g) \<in> set (fst (execAll kEncodedBlockCapsuleRegEx
               (fst (handleText kEncodedBlockCapsuleRegEx (parsePandocBlockCapsule ?reg) ?x 0)) 0)).
             type (parsePandocBlockCapsule ?reg g) \<noteq> kYamlMetadataCapsuleType"
    by code_simp
  from handleText_idempotent_on_decoded [OF h, of 0] out show ?thesis by simp
qed

theorem handleText_not_idempotent:
  "fst (handleText kEncodedBlockCapsuleRegEx
         (parsePandocBlockCapsule
            (snd (scan ''---\<newline>{{e1819605-0acd-4fae-8b99-9c1b7bd7c0f1:0}}\<newline>---'')))
         (fst (handleText kEncodedBlockCapsuleRegEx
                (parsePandocBlockCapsule
                   (snd (scan ''---\<newline>{{e1819605-0acd-4fae-8b99-9c1b7bd7c0f1:0}}\<newline>---'')))
                (fst (scan ''---\<newline>{{e1819605-0acd-4fae-8b99-9c1b7bd7c0f1:0}}\<newline>---'')) 0)) 0)
   \<noteq> fst (handleText kEncodedBlockCapsuleRegEx
           (parsePandocBlockCapsule
              (snd (scan ''---\<newline>{{e1819605-0acd-4fae-8b99-9c1b7bd7c0f1:0}}\<newline>---'')))
           (fst (scan ''---\<newline>{{e1819605-0acd-4fae-8b99-9c1b7bd7c0f1:0}}\<newline>---'')) 0)"
  by code_simp

section \<open>Properties of the filter's pattern\<close>

lemma closeAt_Some:
  "closeAt xs = Some (d, p3) \<Longrightarrow> (d = ''\<newline>---'' \<or> d = ''\<newline>...'') \<and> prefix d xs"
  by (auto simp: closeAt_def prefix_def split: if_splits)

lemma lazyClose_Some:
  "lazyClose xs = Some (body, d, p3) \<Longrightarrow> (d = ''\<newline>---'' \<or> d = ''\<newline>...'') \<and> sublist d xs"
proof (induction xs arbitrary: body)
  case Nil
  then show ?case by simp
next
  case (Cons ch cs)
  show ?case
  proof (cases "closeAt (ch # cs)")
    case None
    with Cons.prems obtain body' where "lazyClose cs = Some (body', d, p3)"
      by auto
    from Cons.IH [OF this] show ?thesis
      by (auto simp: sublist_Cons_right)
  next
    case (Some a)
    with Cons.prems have "closeAt (ch # cs) = Some (d, p3)"
      by (cases a) auto
    from closeAt_Some [OF this] show ?thesis
      by (auto simp: prefix_def)
  qed
qed

lemma yamlMatchAt_Some:
  assumes "yamlMatchAt xs = Some (p1, p2, p3)"
  shows "\<exists>pre r4 d. xs = pre @ CHR ''\<newline>'' # r4 \<and> (d = ''\<newline>---'' \<or> d = ''\<newline>...'') \<and> sublist d r4"
proof -
  define r1 where "r1 = dropWhile isQuoteSpace xs"
  define r3 where "r3 = dropWhile isBlank (drop 3 r1)"
  have unfold: "yamlMatchAt xs =
     (if prefix ''---'' r1
      then (case r3 of
              [] \<Rightarrow> None
            | ch # r4 \<Rightarrow>
                if ch = CHR ''\<newline>''
                then (case lazyClose r4 of
                        None \<Rightarrow> None
                      | Some (body, d, p3) \<Rightarrow>
                          Some (takeWhile isQuoteSpace xs,
                                ''---'' @ takeWhile isBlank (drop 3 r1) @ ''\<newline>'' @ body @ d, p3))
                else None)
      else None)"
    unfolding yamlMatchAt_def Let_def r1_def r3_def ..
  from assms unfold have pre: "prefix ''---'' r1"
    by (cases "prefix ''---'' r1") simp_all
  from assms unfold pre obtain ch r4 where r3: "r3 = ch # r4"
    by (cases r3) simp_all
  from assms unfold pre r3 have ch: "ch = CHR ''\<newline>''"
    by (cases "ch = CHR ''\<newline>''") simp_all
  from assms unfold pre r3 ch obtain body d p3' where lc: "lazyClose r4 = Some (body, d, p3')"
    by (cases "lazyClose r4") auto
  have "xs = takeWhile isQuoteSpace xs @ r1" by (simp add: r1_def)
  also have "r1 = take 3 r1 @ drop 3 r1" by simp
  also have "drop 3 r1 = takeWhile isBlank (drop 3 r1) @ r3" by (simp add: r3_def)
  finally have "xs = (takeWhile isQuoteSpace xs @ take 3 r1 @ takeWhile isBlank (drop 3 r1)) @ CHR ''\<newline>'' # r4"
    using r3 ch by simp
  with lazyClose_Some [OF lc] show ?thesis by blast
qed

lemma yamlFind_Some:
  "yamlFind bol xs j = Some m \<Longrightarrow> \<exists>ys. suffix ys xs \<and> yamlMatchAt ys \<noteq> None"
proof (induction xs arbitrary: bol j)
  case Nil
  then show ?case
    by (auto simp: yamlFind.simps [of bol "[]" j] split: option.splits if_splits)
next
  case (Cons ch cs)
  show ?case
  proof (cases "(if bol then yamlMatchAt (ch # cs) else None)")
    case None
    with Cons.prems have "yamlFind (isLineTerminator ch) cs (Suc j) = Some m"
      by (simp add: yamlFind.simps [of bol "ch # cs" j])
    from Cons.IH [OF this] show ?thesis
      by (auto intro: suffix_ConsI)
  next
    case (Some a)
    then have "yamlMatchAt (ch # cs) \<noteq> None" by (cases bol) simp_all
    then show ?thesis by blast
  qed
qed

lemma after_first_newline:
  assumes "h @ CHR ''\<newline>'' # rest = u @ CHR ''\<newline>'' # tail" and "CHR ''\<newline>'' \<notin> set h"
  shows "suffix tail rest"
proof -
  from assms(1) obtain us where
    "(h = u @ us \<and> us @ CHR ''\<newline>'' # rest = CHR ''\<newline>'' # tail) \<or>
     (h @ us = u \<and> CHR ''\<newline>'' # rest = us @ CHR ''\<newline>'' # tail)"
    by (auto simp: append_eq_append_conv2)
  then show ?thesis
  proof
    assume a: "h = u @ us \<and> us @ CHR ''\<newline>'' # rest = CHR ''\<newline>'' # tail"
    show ?thesis
    proof (cases us)
      case Nil
      with a show ?thesis by simp
    next
      case (Cons c us')
      with a have "c = CHR ''\<newline>''" by simp
      with a Cons assms(2) show ?thesis by simp
    qed
  next
    assume a: "h @ us = u \<and> CHR ''\<newline>'' # rest = us @ CHR ''\<newline>'' # tail"
    show ?thesis
    proof (cases us)
      case Nil
      with a show ?thesis by simp
    next
      case (Cons c us')
      with a have "rest = us' @ CHR ''\<newline>'' # tail" by simp
      then show ?thesis by (auto simp: suffix_def)
    qed
  qed
qed

lemma match_needs_close:
  assumes "match s i = Some m" and "s = h @ CHR ''\<newline>'' # rest" and "CHR ''\<newline>'' \<notin> set h"
  shows "sublist ''\<newline>---'' rest \<or> sublist ''\<newline>...'' rest"
proof -
  from assms(1) have "yamlFind (atLineStart s i) (drop i s) i = Some m"
    by (simp add: match_def split: if_splits)
  from yamlFind_Some [OF this] obtain ys p1 p2 p3 where
    ys: "suffix ys (drop i s)" and m: "yamlMatchAt ys = Some (p1, p2, p3)"
    by auto
  from yamlMatchAt_Some [OF m] obtain pre r4 d where
    split: "ys = pre @ CHR ''\<newline>'' # r4" and d: "d = ''\<newline>---'' \<or> d = ''\<newline>...''" and sub: "sublist d r4"
    by blast
  from ys have "suffix ys s" by (meson suffix_drop suffix_order.trans)
  then obtain u where "s = u @ ys" by (auto simp: suffix_def)
  with split assms(2) have "h @ CHR ''\<newline>'' # rest = (u @ pre) @ CHR ''\<newline>'' # r4" by simp
  from after_first_newline [OF this assms(3)] have "suffix r4 rest" .
  then have "sublist r4 rest" by (rule suffix_imp_sublist)
  with sub have "sublist d rest" by (rule sublist_order.order.trans)
  with d show ?thesis by auto
qed

lemma newline_not_isQuoteSpace: "\<not> isQuoteSpace (CHR ''\<newline>'')"
  by (simp add: isQuoteSpace_def)

lemma newline_not_isBlank: "\<not> isBlank (CHR ''\<newline>'')"
  by (simp add: isBlank_def)

lemma list_all_notin: "list_all P xs \<Longrightarrow> \<not> P c \<Longrightarrow> c \<notin> set xs"
  by (auto simp: list_all_iff)

lemma no_newline_in_opening:
  assumes "list_all isQuoteSpace p" and "list_all isBlank w"
  shows "CHR ''\<newline>'' \<notin> set (p @ ''---'' @ w)"
proof -
  from assms(1) newline_not_isQuoteSpace have "CHR ''\<newline>'' \<notin> set p" by (rule list_all_notin)
  moreover from assms(2) newline_not_isBlank have "CHR ''\<newline>'' \<notin> set w" by (rule list_all_notin)
  ultimately show ?thesis by simp
qed

text \<open>
  Claim C4. A text that begins with an opening line (leading context, \<^verbatim>\<open>---\<close>,
  blanks, newline) and has no closing delimiter \<^verbatim>\<open>\n---\<close> or \<^verbatim>\<open>\n...\<close> after that
  line has no match of the filter's pattern, at any index; a replace with the
  pattern returns the text as it is. The matching function is total: nothing is
  raised.
\<close>

theorem match_unterminated_block:
  assumes "list_all isQuoteSpace p" and "list_all isBlank w"
    and "\<not> sublist ''\<newline>---'' rest" and "\<not> sublist ''\<newline>...'' rest"
  shows "match (p @ ''---'' @ w @ ''\<newline>'' @ rest) i = None \<and>
         regExpReplace match f (p @ ''---'' @ w @ ''\<newline>'' @ rest) li = (p @ ''---'' @ w @ ''\<newline>'' @ rest, 0)"
proof -
  define s where "s = p @ ''---'' @ w @ ''\<newline>'' @ rest"
  have s: "s = (p @ ''---'' @ w) @ CHR ''\<newline>'' # rest" by (simp add: s_def)
  have nl: "CHR ''\<newline>'' \<notin> set (p @ ''---'' @ w)"
    using assms(1,2) by (rule no_newline_in_opening)
  have none: "match s j = None" for j
  proof (cases "match s j")
    case None
    then show ?thesis .
  next
    case (Some m)
    from match_needs_close [OF Some s nl] assms(3,4) show ?thesis by blast
  qed
  have "regExpReplace match f s li = (s, 0)"
    using none [of 0] by (rule regExpReplace_no_match)
  with none [of i] show ?thesis unfolding s_def by blast
qed

theorem match_unterminated_block_witness:
  "list_all isQuoteSpace ''> '' \<and> list_all isBlank '' '' \<and>
   \<not> sublist ''\<newline>---'' ''title: x\<newline>'' \<and> \<not> sublist ''\<newline>...'' ''title: x\<newline>'' \<and>
   match (''> '' @ ''---'' @ '' '' @ ''\<newline>'' @ ''title: x\<newline>'') 0 = None \<and>
   regExpReplace match (\<lambda>m g. []) (''> '' @ ''---'' @ '' '' @ ''\<newline>'' @ ''title: x\<newline>'') 0
     = (''> '' @ ''---'' @ '' '' @ ''\<newline>'' @ ''title: x\<newline>'', 0)"
proof -
  have h1: "list_all isQuoteSpace ''> ''" by (simp add: isQuoteSpace_def)
  have h2: "list_all isBlank '' ''" by (simp add: isBlank_def)
  have h3: "\<not> sublist ''\<newline>---'' ''title: x\<newline>''" by code_simp
  have h4: "\<not> sublist ''\<newline>...'' ''title: x\<newline>''" by code_simp
  note r = match_unterminated_block [OF h1 h2 h3 h4, of 0 "\<lambda>m g. []" 0]
  show ?thesis
    by (intro conjI h1 h2 h3 h4 conjunct1 [OF r] conjunct2 [OF r])
qed

section \<open>Properties of handleToken, writeNode and the writer\<close>

text \<open>
  Claim C5, as amended. \<^verbatim>\<open>handleToken\<close> returns a match exactly for a paragraph whose
  content is one string run in which the first (leftmost) placeholder has a capsule
  of the yaml type; for every other token it returns null.
\<close>

theorem handleToken_claims_first_placeholder:
  "(fst (handleToken rx parse tok li) \<noteq> None) =
   (\<exists>text b e g ms. tok = Para [Str text] \<and> fst (execAll rx text 0) = (b, e, g) # ms \<and>
      type (parse (substring text b e)) = kYamlMetadataCapsuleType)"
  by (cases "(rx, parse, tok, li)" rule: handleToken.cases)
     (auto simp: Let_def regExpMatch_def split: option.splits list.splits if_splits)

theorem handleToken_ignores_later_placeholder:
  "fst (handleToken kEncodedBlockCapsuleRegEx
         (parsePandocBlockCapsule
            [(''{{div:0}}'',
              \<lparr>capsule_id = ''0'', type = ''div'', source = '':::'', enclosedText = '':::''\<rparr>),
             (''{{e1819605-0acd-4fae-8b99-9c1b7bd7c0f1:1}}'',
              \<lparr>capsule_id = ''1'', type = kYamlMetadataCapsuleType,
                 source = ''---\<newline>title: x\<newline>---'',
                 enclosedText = ''---\<newline>title: x\<newline>---\<newline>''\<rparr>)])
         (Para [Str ''{{div:0}}{{e1819605-0acd-4fae-8b99-9c1b7bd7c0f1:1}}'']) 0) = None \<and>
   fst (execAll kEncodedBlockCapsuleRegEx ''{{div:0}}{{e1819605-0acd-4fae-8b99-9c1b7bd7c0f1:1}}'' 0)
     = [(0, 9, ''{{div:0}}''), (9, 51, ''{{e1819605-0acd-4fae-8b99-9c1b7bd7c0f1:1}}'')] \<and>
   type (parsePandocBlockCapsule
          [(''{{div:0}}'',
            \<lparr>capsule_id = ''0'', type = ''div'', source = '':::'', enclosedText = '':::''\<rparr>),
           (''{{e1819605-0acd-4fae-8b99-9c1b7bd7c0f1:1}}'',
            \<lparr>capsule_id = ''1'', type = kYamlMetadataCapsuleType,
               source = ''---\<newline>title: x\<newline>---'',
               enclosedText = ''---\<newline>title: x\<newline>---\<newline>''\<rparr>)]
          ''{{e1819605-0acd-4fae-8b99-9c1b7bd7c0f1:1}}'') = kYamlMetadataCapsuleType"
  by code_simp

text \<open>
  Claim C6. \<^verbatim>\<open>writeNode\<close> appends exactly one node to the node that is open in the
  writer: a \<^verbatim>\<open>yaml_metadata\<close> node whose text content is the capsule's source.
\<close>

theorem writeNode_appends_yaml_metadata_node:
  "writeNode ((ty, attrs, children) # outer) capsule uuid =
     (ty, attrs,
      children @ [Node ''yaml_metadata'' [(''navigation_id'', uuid)] [TextNode (source capsule)]])
     # outer \<and>
   textContent (Node ''yaml_metadata'' [(''navigation_id'', uuid)] [TextNode (source capsule)])
     = source capsule"
  by (simp add: writeNode_def openNode_def)

text \<open>
  Claim C7, as amended. On serialization a \<^verbatim>\<open>yaml_metadata\<close> node emits one paragraph
  token that holds its current text content as raw markdown, as it is: the writer
  adds no delimiter, so what a later import finds is what the pattern finds in the
  content itself.
\<close>

theorem writer_emits_content_verbatim:
  "writer output (Node ty attrs children) =
     output @ [Para [RawInline ''markdown'' (concat (map textContent children))]] \<and>
   writer output (Node ty attrs [TextNode current]) =
     output @ [Para [RawInline ''markdown'' current]]"
  by (simp add: writer_def writeToken_def writeRawMarkdown_def)

theorem writer_adds_no_delimiters:
  "writer [] (Node ''yaml_metadata'' [(''navigation_id'', ''u'')] [TextNode ''title: y''])
     = [Para [RawInline ''markdown'' ''title: y'']] \<and>
   fst (execAll match ''title: y'' 0) = []"
  by code_simp

section \<open>The round trip\<close>

text \<open>
  Claim C1. The text \<^verbatim>\<open>---\ntitle: x\n---\<close> matches the filter's pattern as a whole,
  with no leading context and no trailing whitespace. The scanner encodes it as
  the placeholder and the newline that \<^verbatim>\<open>enclose\<close> appends; \<^verbatim>\<open>handleText\<close> puts the
  source in the place of the placeholder and keeps the newline, so the pipeline
  returns the text with one more character.
\<close>

theorem roundtrip_keeps_enclosing_newline:
  "match ''---\<newline>title: x\<newline>---'' 0 = Some (0, 16, ([], ''---\<newline>title: x\<newline>---'', [])) \<and>
   fst (scan ''---\<newline>title: x\<newline>---'') = ''{{e1819605-0acd-4fae-8b99-9c1b7bd7c0f1:0}}\<newline>'' \<and>
   fst (handleText kEncodedBlockCapsuleRegEx
         (parsePandocBlockCapsule (snd (scan ''---\<newline>title: x\<newline>---'')))
         (fst (scan ''---\<newline>title: x\<newline>---'')) 0)
     = ''---\<newline>title: x\<newline>---\<newline>''"
  by code_simp

end
